theory Spec2Isabelle
  imports Main
begin

section \<open>Values\<close>

text \<open>
  The values the template engine handles are the JSON-compatible values of the host
  language together with \<open>undefined\<close>. An object is the list of its own members in
  enumeration order (the order in which \<open>for (key in node)\<close> meets them); an object has
  every key once. Numbers are the integers that the host represents exactly and writes
  in decimal (magnitude up to \<open>2\<^sup>5\<^sup>3\<close>); other numbers have no value here. Member
  access on a data value reads own members only: members a data value inherits from the
  host's built-in prototypes are outside this model.
\<close>

datatype jv =
    JUndef
  | JNull
  | JBool bool
  | JNum int
  | JStr string
  | JArr "jv list"
  | JObj "(string \<times> jv) list"

text \<open>The exceptions of the host language that the engine can run into.\<close>

datatype error =
    NullMemberAccess string   \<comment> \<open>TypeError: reading member \<open>m\<close> of \<open>null\<close> or \<open>undefined\<close>\<close>
  | NotAFunction string       \<comment> \<open>TypeError: calling \<open>x.m\<close> where it is not a function\<close>
  | NotPrimitive              \<comment> \<open>TypeError: an object cannot be converted to a primitive value\<close>
  | BuiltinTypeError string   \<comment> \<open>TypeError raised by the built-in member \<open>m\<close> of \<open>Object.prototype\<close>\<close>
  | Thrown string             \<comment> \<open>an exception raised by caller-supplied code\<close>

fun typeof :: "jv \<Rightarrow> string" where
  "typeof JUndef = ''undefined''"
| "typeof JNull = ''object''"
| "typeof (JBool b) = ''boolean''"
| "typeof (JNum n) = ''number''"
| "typeof (JStr s) = ''string''"
| "typeof (JArr xs) = ''object''"
| "typeof (JObj ms) = ''object''"

text \<open>Truthiness, as \<open>if (x)\<close> and \<open>!x\<close> read a value.\<close>

fun truthy :: "jv \<Rightarrow> bool" where
  "truthy JUndef = False"
| "truthy JNull = False"
| "truthy (JBool b) = b"
| "truthy (JNum n) = (n \<noteq> 0)"
| "truthy (JStr s) = (s \<noteq> [])"
| "truthy (JArr xs) = True"
| "truthy (JObj ms) = True"

section \<open>Strings\<close>

definition isWhite :: "char \<Rightarrow> bool" where
  "isWhite c = (c = CHR 0x20 \<or> c = CHR 0x09 \<or> c = CHR 0x0A \<or> c = CHR 0x0B
      \<or> c = CHR 0x0C \<or> c = CHR 0x0D \<or> c = CHR 0xA0)"

definition trim :: "string \<Rightarrow> string" where
  "trim s = rev (dropWhile isWhite (rev (dropWhile isWhite s)))"

text \<open>\<open>s.split(sep)\<close> for a one-character separator: there is always at least one part.\<close>

fun split :: "char \<Rightarrow> string \<Rightarrow> string list" where
  "split sep [] = [[]]"
| "split sep (c # cs) =
     (if c = sep then [] # split sep cs
      else (case split sep cs of p # ps \<Rightarrow> (c # p) # ps | [] \<Rightarrow> [[c]]))"

text \<open>\<open>s.indexOf(c)\<close> and \<open>s.lastIndexOf(c)\<close>: \<open>-1\<close> when \<open>c\<close> does not occur.\<close>

fun indexOf :: "string \<Rightarrow> char \<Rightarrow> int" where
  "indexOf [] c = -1"
| "indexOf (d # ds) c =
     (if d = c then 0 else (let r = indexOf ds c in if r < 0 then -1 else r + 1))"

definition lastIndexOf :: "string \<Rightarrow> char \<Rightarrow> int" where
  "lastIndexOf s c =
     (let r = indexOf (rev s) c in if r < 0 then -1 else int (length s) - 1 - r)"

text \<open>\<open>s.substr(start, len)\<close> for \<open>start \<ge> 0\<close>: a length below one gives the empty text.\<close>

definition substr :: "string \<Rightarrow> int \<Rightarrow> int \<Rightarrow> string" where
  "substr s start len = (if len \<le> 0 then [] else take (nat len) (drop (nat start) s))"

section \<open>Value addressing\<close>

text \<open>
  An array answers to its indices, written canonically (\<open>0\<close>, \<open>17\<close>, not \<open>007\<close>), and
  to \<open>length\<close>.
\<close>

definition isDigit :: "char \<Rightarrow> bool" where
  "isDigit c = (48 \<le> (of_char c :: nat) \<and> (of_char c :: nat) \<le> 57)"

definition digitsValue :: "string \<Rightarrow> nat" where
  "digitsValue s = foldl (\<lambda>n c. 10 * n + (of_char c - 48)) 0 s"

definition arrayIndex :: "string \<Rightarrow> nat option" where
  "arrayIndex s =
     (if s \<noteq> [] \<and> list_all isDigit s \<and> (s = ''0'' \<or> hd s \<noteq> CHR ''0'')
      then Some (digitsValue s) else None)"

text \<open>
  \<open>value[member]\<close> for a value whose \<open>typeof\<close> is \<open>object\<close>. Reading a member of
  \<open>null\<close> raises a TypeError.
\<close>

fun member :: "jv \<Rightarrow> string \<Rightarrow> error + jv" where
  "member JNull m = Inl (NullMemberAccess m)"
| "member (JObj ms) m = Inr (case map_of ms m of Some v \<Rightarrow> v | None \<Rightarrow> JUndef)"
| "member (JArr xs) m =
     (if m = ''length'' then Inr (JNum (int (length xs)))
      else (case arrayIndex m of
              Some i \<Rightarrow> Inr (if i < length xs then xs ! i else JUndef)
            | None \<Rightarrow> Inr JUndef))"
| "member v m = Inr JUndef"

text \<open>
  The loop of \<open>getValue\<close> over the parts of the path: a value that is not of type
  \<open>object\<close> ends the walk with \<open>undefined\<close>.
\<close>

fun walk :: "jv \<Rightarrow> string list \<Rightarrow> error + jv" where
  "walk v [] = Inr v"
| "walk v (part # parts) =
     (if typeof v = ''object''
      then (case member v (trim part) of Inl e \<Rightarrow> Inl e | Inr w \<Rightarrow> walk w parts)
      else Inr JUndef)"

definition getValue :: "jv \<Rightarrow> string \<Rightarrow> error + jv" where
  "getValue data path = walk data (split CHR ''.'' path)"

section \<open>Lexer and parser\<close>

text \<open>
  A fragment is one of the three closures \<open>parse\<close> builds; it is kept as data and run by
  the renderer below.
\<close>

datatype fragment =
    appendText string
  | appendProperty string
  | appendFunction string string

datatype ParseState = ParseState_none | ParseState_string | ParseState_path

text \<open>
  What \<open>parse\<close> does with the text of a path expression when its delimiter is met.
  \<open>open && close\<close> reads the two indices as truth values: \<open>0\<close> is false, every other
  index, \<open>-1\<close> too, is true.
\<close>

definition closePath :: "string \<Rightarrow> fragment" where
  "closePath txt =
     (let trimmed = trim txt in
      if trimmed \<noteq> [] \<and> last trimmed = CHR '')''
      then (let opn = indexOf txt CHR ''(''; cls = lastIndexOf txt CHR '')'' in
            if opn \<noteq> 0 \<and> cls \<noteq> 0
            then (let name = substr txt 0 opn;
                      opn' = opn + 1;
                      args = (if cls > opn' then substr txt opn' (cls - opn') else [])
                  in appendFunction name args)
            else appendProperty txt)
      else appendProperty txt)"

text \<open>
  The scanning loop. Its arguments are the rest of the input, the state, the pending
  text, the closing quote of the string, the delimiter of the path expression, the
  state to return to, the character before the current one and the fragments so far.
\<close>

function parse_loop ::
  "string \<Rightarrow> ParseState \<Rightarrow> string \<Rightarrow> string \<Rightarrow> string \<Rightarrow> ParseState \<Rightarrow> char option
     \<Rightarrow> fragment list \<Rightarrow> fragment list" where
  "parse_loop [] state txt endString endPath nextState prev parsed =
     (if txt \<noteq> [] then parsed @ [appendText txt] else parsed)"
| "parse_loop (c # rest) ParseState_none txt endString endPath nextState prev parsed =
     (if (c = CHR 0x27 \<or> c = CHR 0x22) \<and> rest \<noteq> []
      then (if hd rest = CHR ''!''
            then parse_loop (tl rest) ParseState_path [] endString [c] ParseState_none
                   (Some (hd rest)) (parsed @ [appendText txt])
            else parse_loop rest ParseState_string (txt @ [c]) [c] endPath nextState
                   (Some c) parsed)
      else parse_loop rest ParseState_none (txt @ [c]) endString endPath nextState
             (Some c) parsed)"
| "parse_loop (c # rest) ParseState_string txt endString endPath nextState prev parsed =
     (if c = CHR ''$'' \<and> rest \<noteq> [] \<and> hd rest = CHR ''{''
      then parse_loop (tl rest) ParseState_path [] endString ''}'' ParseState_string
             (Some (hd rest)) (parsed @ [appendText txt])
      else if [c] = endString \<and> prev \<noteq> Some CHR 0x5C
      then parse_loop rest ParseState_none (txt @ [c]) endString endPath nextState
             (Some c) parsed
      else parse_loop rest ParseState_string (txt @ [c]) endString endPath nextState
             (Some c) parsed)"
| "parse_loop (c # rest) ParseState_path txt endString endPath nextState prev parsed =
     (if [c] = endPath
      then parse_loop rest nextState [] endString endPath nextState (Some c)
             (parsed @ [closePath txt])
      else parse_loop rest ParseState_path (txt @ [c]) endString endPath nextState
             (Some c) parsed)"
  by pat_completeness auto
termination
  by (relation "measure (\<lambda>(json, state, txt, endString, endPath, nextState, prev, parsed). length json)")
     auto

definition parse :: "string \<Rightarrow> fragment list" where
  "parse json = parse_loop json ParseState_none [] [] [] ParseState_none None []"

section \<open>Post-processor\<close>

text \<open>
  The pruning options. \<open>processNode\<close> starts from the empty object, where every option
  reads as \<open>undefined\<close>, and only ever tests an option for truthiness.
\<close>

record prune =
  nullMembers :: jv
  emptyStrings :: jv
  emptyArrays :: jv

definition noPrune :: prune where
  "noPrune = \<lparr>nullMembers = JUndef, emptyStrings = JUndef, emptyArrays = JUndef\<rparr>"

text \<open>
  \<open>Object.assign({}, prune, value)\<close>: a copy of the options in which every own member of
  \<open>value\<close> is written over the inherited one. Only an object has members under the three
  option names.
\<close>

definition assignMember :: "string \<times> jv \<Rightarrow> prune \<Rightarrow> prune" where
  "assignMember kv p =
     (if fst kv = ''nullMembers'' then p\<lparr>nullMembers := snd kv\<rparr>
      else if fst kv = ''emptyStrings'' then p\<lparr>emptyStrings := snd kv\<rparr>
      else if fst kv = ''emptyArrays'' then p\<lparr>emptyArrays := snd kv\<rparr>
      else p)"

fun assign :: "prune \<Rightarrow> jv \<Rightarrow> prune" where
  "assign p (JObj ms) = fold assignMember ms p"
| "assign p v = p"

fun isNullish :: "jv \<Rightarrow> bool" where
  "isNullish JUndef = True"
| "isNullish JNull = True"
| "isNullish v = False"

fun isBlankString :: "jv \<Rightarrow> bool" where
  "isBlankString (JStr s) = (length (trim s) = 0)"
| "isBlankString v = False"

fun isEmptyArray :: "jv \<Rightarrow> bool" where
  "isEmptyArray (JArr xs) = (length xs = 0)"
| "isEmptyArray v = False"

text \<open>
  \<open>getValue(node, condition)\<close> for a deferred condition. The condition is whatever value
  stood under the \<open>@if\<close> key; \<open>getValue\<close> calls \<open>split\<close> on it, which only a text has.
\<close>

fun conditionValue :: "jv \<Rightarrow> jv \<Rightarrow> error + jv" where
  "conditionValue node (JStr path) = getValue node path"
| "conditionValue node JUndef = Inl (NullMemberAccess ''split'')"
| "conditionValue node JNull = Inl (NullMemberAccess ''split'')"
| "conditionValue node c = Inl (NotAFunction ''split'')"

text \<open>The loop over the deferred conditions: the first falsy one fails the node.\<close>

fun checkConditions :: "jv \<Rightarrow> jv list \<Rightarrow> error + bool" where
  "checkConditions node [] = Inr True"
| "checkConditions node (c # cs) =
     (case conditionValue node c of
        Inl e \<Rightarrow> Inl e
      | Inr v \<Rightarrow> if \<not> truthy v then Inr False else checkConditions node cs)"

text \<open>
  \<open>processNode\<close> changes the tree it is given in place and returns a truth value. Here it
  returns the truth value together with the node as it is when the call returns; a
  node that fails is returned as well, in the state the call left it.

  \<open>processElements\<close> is the loop over an array from its last index down to index 0: the
  elements after the first one are dealt with before the first one is looked at. Its
  result is the array after the loop.

  \<open>processMembers\<close> is the loop over the members of an object in enumeration order, with
  the options in force when the loop reaches the member. Its result is the members the
  loop has left in the node and the conditions it has collected.
\<close>

fun processNode :: "jv \<Rightarrow> prune \<Rightarrow> error + (bool \<times> jv)"
and processElements :: "jv list \<Rightarrow> prune \<Rightarrow> error + jv list"
and processMembers :: "(string \<times> jv) list \<Rightarrow> prune \<Rightarrow> error + ((string \<times> jv) list \<times> jv list)"
where
  "processNode (JArr xs) p =
     (case processElements xs p of
        Inl e \<Rightarrow> Inl e
      | Inr ys \<Rightarrow> if truthy (emptyArrays p) \<and> length ys = 0 then Inr (False, JArr ys)
                 else Inr (True, JArr ys))"
| "processNode (JObj ms) p =
     (case processMembers ms p of
        Inl e \<Rightarrow> Inl e
      | Inr (kept, conditions) \<Rightarrow>
          (case checkConditions (JObj kept) conditions of
             Inl e \<Rightarrow> Inl e
           | Inr ok \<Rightarrow> Inr (ok, JObj kept)))"
| "processNode JNull p = Inr (True, JNull)"
| "processNode JUndef p = Inr (True, JUndef)"
| "processNode (JBool b) p = Inr (True, JBool b)"
| "processNode (JNum n) p = Inr (True, JNum n)"
| "processNode (JStr s) p = Inr (True, JStr s)"
| "processElements [] p = Inr []"
| "processElements (x # xs) p =
     (case processElements xs p of
        Inl e \<Rightarrow> Inl e
      | Inr ys \<Rightarrow>
          if truthy (nullMembers p) \<and> isNullish x then Inr ys
          else (case processNode x p of
                  Inl e \<Rightarrow> Inl e
                | Inr (ok, x') \<Rightarrow> if \<not> ok then Inr ys else Inr (x' # ys)))"
| "processMembers [] p = Inr ([], [])"
| "processMembers ((key, v) # ms) p =
     (if key = ''@prune'' then processMembers ms (assign p v)
      else if key = ''@if'' then
        (case processMembers ms p of
           Inl e \<Rightarrow> Inl e
         | Inr (kept, conditions) \<Rightarrow> Inr (kept, v # conditions))
      else if truthy (nullMembers p) \<and> isNullish v then processMembers ms p
      else if truthy (emptyStrings p) \<and> isBlankString v then processMembers ms p
      else if truthy (emptyArrays p) \<and> isEmptyArray v then processMembers ms p
      else (case processNode v p of
              Inl e \<Rightarrow> Inl e
            | Inr (ok, v') \<Rightarrow>
                (case processMembers ms p of
                   Inl e \<Rightarrow> Inl e
                 | Inr (kept, conditions) \<Rightarrow>
                     if \<not> ok then Inr (kept, conditions)
                     else Inr ((key, v') # kept, conditions))))"

definition postProcess :: "jv \<Rightarrow> error + jv" where
  "postProcess object =
     (case processNode object noPrune of
        Inl e \<Rightarrow> Inl e
      | Inr (ok, node) \<Rightarrow> if \<not> ok then Inr JUndef else Inr node)"

text \<open>
  The options in force after the members \<open>ms\<close> of a node, as the specification words
  it: the inherited options with the value of every \<open>@prune\<close> directive among \<open>ms\<close>
  merged over them, in order.
\<close>

definition effectivePrune :: "prune \<Rightarrow> (string \<times> jv) list \<Rightarrow> prune" where
  "effectivePrune inherited ms =
     fold (\<lambda>kv q. if fst kv = ''@prune'' then assign q (snd kv) else q) ms inherited"


text \<open>
  What the array loop leaves in the array for one element: nothing for an element it
  removes, the post-processed element otherwise.
\<close>

definition keptElement :: "prune \<Rightarrow> jv \<Rightarrow> jv option" where
  "keptElement p x =
     (if truthy (nullMembers p) \<and> isNullish x then None
      else (case processNode x p of Inr (True, x') \<Rightarrow> Some x' | _ \<Rightarrow> None))"

text \<open>A tree without directive keys: no object in it has a \<open>@prune\<close> or an \<open>@if\<close> member.\<close>

fun directiveFree :: "jv \<Rightarrow> bool"
and directiveFreeElements :: "jv list \<Rightarrow> bool"
and directiveFreeMembers :: "(string \<times> jv) list \<Rightarrow> bool"
where
  "directiveFree (JArr xs) = directiveFreeElements xs"
| "directiveFree (JObj ms) = directiveFreeMembers ms"
| "directiveFree JNull = True"
| "directiveFree JUndef = True"
| "directiveFree (JBool b) = True"
| "directiveFree (JNum n) = True"
| "directiveFree (JStr s) = True"
| "directiveFreeElements [] = True"
| "directiveFreeElements (x # xs) = (directiveFree x \<and> directiveFreeElements xs)"
| "directiveFreeMembers [] = True"
| "directiveFreeMembers ((key, v) # ms) =
     (key \<noteq> ''@prune'' \<and> key \<noteq> ''@if'' \<and> directiveFree v \<and> directiveFreeMembers ms)"

section \<open>Serialisation\<close>

text \<open>
  \<open>JSON.stringify\<close> on the values of the model. It has no text for \<open>undefined\<close>
  (the result is \<open>undefined\<close>, here \<open>None\<close>); inside an array \<open>undefined\<close> is written
  \<open>null\<close>, and a member of an object that is \<open>undefined\<close> is left out.
\<close>

fun showNat :: "nat \<Rightarrow> string" where
  "showNat n =
     (if n < 10 then [char_of (48 + n)] else showNat (n div 10) @ [char_of (48 + n mod 10)])"

definition showInt :: "int \<Rightarrow> string" where
  "showInt i = (if i < 0 then CHR ''-'' # showNat (nat (- i)) else showNat (nat i))"

definition hexDigit :: "nat \<Rightarrow> char" where
  "hexDigit n = (if n < 10 then char_of (48 + n) else char_of (87 + n))"

definition escapeChar :: "char \<Rightarrow> string" where
  "escapeChar c =
     (if c = CHR 0x22 then [CHR 0x5C, CHR 0x22]
      else if c = CHR 0x5C then [CHR 0x5C, CHR 0x5C]
      else if c = CHR 0x08 then [CHR 0x5C, CHR ''b'']
      else if c = CHR 0x0C then [CHR 0x5C, CHR ''f'']
      else if c = CHR 0x0A then [CHR 0x5C, CHR ''n'']
      else if c = CHR 0x0D then [CHR 0x5C, CHR ''r'']
      else if c = CHR 0x09 then [CHR 0x5C, CHR ''t'']
      else if (of_char c :: nat) < 32
      then [CHR 0x5C, CHR ''u'', CHR ''0'', CHR ''0'',
            hexDigit (of_char c div 16), hexDigit (of_char c mod 16)]
      else [c])"

definition quote :: "string \<Rightarrow> string" where
  "quote s = CHR 0x22 # concat (map escapeChar s) @ [CHR 0x22]"

fun join :: "string \<Rightarrow> string list \<Rightarrow> string" where
  "join sep [] = []"
| "join sep [s] = s"
| "join sep (s # t # ts) = s @ sep @ join sep (t # ts)"

fun stringify :: "jv \<Rightarrow> string option"
and stringifyElements :: "jv list \<Rightarrow> string list"
and stringifyMembers :: "(string \<times> jv) list \<Rightarrow> string list"
where
  "stringify JUndef = None"
| "stringify JNull = Some ''null''"
| "stringify (JBool b) = Some (if b then ''true'' else ''false'')"
| "stringify (JNum n) = Some (showInt n)"
| "stringify (JStr s) = Some (quote s)"
| "stringify (JArr xs) = Some (''['' @ join '','' (stringifyElements xs) @ '']'')"
| "stringify (JObj ms) = Some (''{'' @ join '','' (stringifyMembers ms) @ ''}'')"
| "stringifyElements [] = []"
| "stringifyElements (x # xs) =
     (case stringify x of None \<Rightarrow> ''null'' | Some s \<Rightarrow> s) # stringifyElements xs"
| "stringifyMembers [] = []"
| "stringifyMembers ((key, v) # ms) =
     (case stringify v of
        None \<Rightarrow> stringifyMembers ms
      | Some s \<Rightarrow> (quote key @ '':'' @ s) # stringifyMembers ms)"

text \<open>\<open>obj += x\<close> for an \<open>x\<close> that is a text or \<open>undefined\<close>.\<close>

fun appended :: "string \<Rightarrow> string option \<Rightarrow> string" where
  "appended obj None = obj @ ''undefined''"
| "appended obj (Some s) = obj @ s"

section \<open>Compiler and renderer\<close>

text \<open>
  An entry of the table of templates is a compiled template, which is the list of
  fragments \<open>parse\<close> returned, or a function registered as it is. A registered
  function gets the data and the text of the arguments (\<open>None\<close> when it is called
  without) and returns a value or raises.

  The table is the plain object \<open>{}\<close> of the constructor. \<open>T\<close> holds its own members, the
  entries stored by \<open>templates[name] = ...\<close> in \<open>add\<close> and \<open>addFunction\<close>. It is
  handed to every call, not stored in the compiled template: the lookup of a name
  happens when the fragment runs. Storing under the name \<open>__proto__\<close> would replace the
  prototype of the table instead of storing a member; the model covers the tables
  whose prototype is \<open>Object.prototype\<close>.
\<close>

datatype entry =
    Compiled "fragment list"
  | Native "jv \<Rightarrow> string option \<Rightarrow> error + jv"

type_synonym templates = "string \<Rightarrow> entry option"

text \<open>
  The lookup \<open>templates[name]\<close> finds an own member or, failing that, the member of
  \<open>Object.prototype\<close> with that name.
\<close>

definition objectPrototypeNames :: "string list" where
  "objectPrototypeNames =
     [''constructor'', ''__defineGetter__'', ''__defineSetter__'', ''hasOwnProperty'',
      ''__lookupGetter__'', ''__lookupSetter__'', ''isPrototypeOf'', ''propertyIsEnumerable'',
      ''toString'', ''valueOf'', ''__proto__'', ''toLocaleString'']"

datatype found = Registered entry | Inherited string

definition lookup :: "templates \<Rightarrow> string \<Rightarrow> found option" where
  "lookup T name =
     (case T name of
        Some t \<Rightarrow> Some (Registered t)
      | None \<Rightarrow> if name \<in> set objectPrototypeNames then Some (Inherited name) else None)"

text \<open>
  A call can nest without end (a template that calls itself), so the renderer counts
  the nesting down: \<open>None\<close> is a call that does not return within the given depth.
  Otherwise a call returns \<open>Inr\<close> its result or \<open>Inl\<close> the exception it raised.
\<close>

type_synonym 'a outcome = "(error + 'a) option"

text \<open>
  The conversion of a value to a property key: the text of a primitive, the texts of
  the elements of an array joined by commas (nothing for \<open>null\<close> and \<open>undefined\<close>),
  and \<open>[object Object]\<close> for an object, unless the object has a member \<open>toString\<close> of
  its own, which is not a function: then the conversion raises a TypeError.
\<close>

fun toText :: "jv \<Rightarrow> error + string"
and toTextElements :: "jv list \<Rightarrow> error + string list"
where
  "toText JUndef = Inr ''undefined''"
| "toText JNull = Inr ''null''"
| "toText (JBool b) = Inr (if b then ''true'' else ''false'')"
| "toText (JNum n) = Inr (showInt n)"
| "toText (JStr s) = Inr s"
| "toText (JArr xs) =
     (case toTextElements xs of Inl e \<Rightarrow> Inl e | Inr ts \<Rightarrow> Inr (join '','' ts))"
| "toText (JObj ms) =
     (case map_of ms ''toString'' of None \<Rightarrow> Inr ''[object Object]'' | Some v \<Rightarrow> Inl NotPrimitive)"
| "toTextElements [] = Inr []"
| "toTextElements (x # xs) =
     (case (if isNullish x then Inr [] else toText x) of
        Inl e \<Rightarrow> Inl e
      | Inr t \<Rightarrow> (case toTextElements xs of Inl e \<Rightarrow> Inl e | Inr ts \<Rightarrow> Inr (t # ts)))"

text \<open>
  \<open>typeof result === 'string' ? result : JSON.stringify(result)\<close>, the text a function
  fragment makes of the result of its call; \<open>None\<close> is \<open>undefined\<close>.
\<close>

fun resultText :: "jv \<Rightarrow> string option" where
  "resultText (JStr s) = Some s"
| "resultText v = stringify v"

text \<open>
  \<open>templates[name](data, args)\<close> for a name the lookup finds in \<open>Object.prototype\<close>: the
  built-in member is called as a method of the table. The result of some members is
  not a value of the model (the table itself, a wrapper object, a function), so what is
  given here is the text that the fragment makes of the result.
  \<^item> \<open>toString\<close> returns \<open>[object Object]\<close>. \<open>toLocaleString\<close> calls the \<open>toString\<close> of the
    table without arguments: an entry of that name if there is one.
  \<^item> \<open>valueOf\<close> returns the table, which is serialised as \<open>{}\<close>, its members being
    functions; an entry named \<open>toJSON\<close> is called with the empty key and its result is
    serialised in its place.
  \<^item> \<open>constructor\<close> is \<open>Object\<close>: a new object for \<open>null\<close> and \<open>undefined\<close>, the data
    itself or a wrapper around it otherwise, serialised like the data.
  \<^item> \<open>hasOwnProperty\<close> and \<open>propertyIsEnumerable\<close> tell whether the data, as a key,
    names an entry. \<open>isPrototypeOf\<close> returns \<open>false\<close>.
  \<^item> \<open>__lookupGetter__\<close> and \<open>__lookupSetter__\<close> return \<open>undefined\<close> or a function, for
    neither of which there is a text.
  \<^item> \<open>__defineGetter__\<close> and \<open>__defineSetter__\<close> raise, the arguments being a text and
    no function. \<open>__proto__\<close> is an object and no function: calling it raises.
\<close>

definition inheritedMethod ::
  "(entry \<Rightarrow> jv \<Rightarrow> string option \<Rightarrow> jv outcome) \<Rightarrow> templates \<Rightarrow> string \<Rightarrow> jv
     \<Rightarrow> string option outcome"
where
  "inheritedMethod call T m data =
     (if m = ''toString'' then Some (Inr (Some ''[object Object]''))
      else if m = ''toLocaleString'' then
        (case T ''toString'' of
           None \<Rightarrow> Some (Inr (Some ''[object Object]''))
         | Some t \<Rightarrow>
             (case call t JUndef None of
                None \<Rightarrow> None
              | Some (Inl e) \<Rightarrow> Some (Inl e)
              | Some (Inr result) \<Rightarrow> Some (Inr (resultText result))))
      else if m = ''valueOf'' then
        (case T ''toJSON'' of
           None \<Rightarrow> Some (Inr (Some ''{}''))
         | Some t \<Rightarrow>
             (case call t (JStr []) None of
                None \<Rightarrow> None
              | Some (Inl e) \<Rightarrow> Some (Inl e)
              | Some (Inr result) \<Rightarrow> Some (Inr (stringify result))))
      else if m = ''constructor'' then
        (if isNullish data then Some (Inr (Some ''{}'')) else Some (Inr (stringify data)))
      else if m = ''hasOwnProperty'' \<or> m = ''propertyIsEnumerable'' then
        (case toText data of
           Inl e \<Rightarrow> Some (Inl e)
         | Inr key \<Rightarrow>
             (case T key of
                None \<Rightarrow> Some (Inr (Some ''false''))
              | Some t \<Rightarrow> Some (Inr (Some ''true''))))
      else if m = ''isPrototypeOf'' then Some (Inr (Some ''false''))
      else if m = ''__lookupGetter__'' \<or> m = ''__lookupSetter__'' then
        (case toText data of Inl e \<Rightarrow> Some (Inl e) | Inr key \<Rightarrow> Some (Inr None))
      else if m = ''__defineGetter__'' \<or> m = ''__defineSetter__'' then
        Some (Inl (BuiltinTypeError m))
      else Some (Inl (NotAFunction m)))"

text \<open>
  The three closures. \<open>call\<close> is how an entry of the table is invoked from a fragment.
  A property fragment writes a text as it is, nothing for \<open>undefined\<close> and \<open>null\<close>, and
  the serialised value otherwise. A function fragment looks its name up in the table
  and calls what it finds; when the lookup finds nothing, the call raises a TypeError.
\<close>

fun runFragment ::
  "(entry \<Rightarrow> jv \<Rightarrow> string option \<Rightarrow> jv outcome) \<Rightarrow> templates \<Rightarrow> fragment \<Rightarrow> jv \<Rightarrow> string outcome"
where
  "runFragment call T (appendText text) data = Some (Inr text)"
| "runFragment call T (appendProperty path) data =
     (case getValue data path of
        Inl e \<Rightarrow> Some (Inl e)
      | Inr result \<Rightarrow>
          (case result of
             JStr s \<Rightarrow> Some (Inr s)
           | JUndef \<Rightarrow> Some (Inr [])
           | JNull \<Rightarrow> Some (Inr [])
           | _ \<Rightarrow> Some (Inr (appended [] (stringify result)))))"
| "runFragment call T (appendFunction name args) data =
     (case lookup T name of
        None \<Rightarrow> Some (Inl (NotAFunction name))
      | Some (Registered t) \<Rightarrow>
          (case call t data (Some args) of
             None \<Rightarrow> None
           | Some (Inl e) \<Rightarrow> Some (Inl e)
           | Some (Inr result) \<Rightarrow> Some (Inr (appended [] (resultText result))))
      | Some (Inherited m) \<Rightarrow>
          (case inheritedMethod call T m data of
             None \<Rightarrow> None
           | Some (Inl e) \<Rightarrow> Some (Inl e)
           | Some (Inr result) \<Rightarrow> Some (Inr (appended [] result))))"

text \<open>\<open>parsed.forEach((fn) => obj += fn(x))\<close>, from the text \<open>obj\<close> built so far.\<close>

fun forEachFragment ::
  "(fragment \<Rightarrow> jv \<Rightarrow> string outcome) \<Rightarrow> fragment list \<Rightarrow> jv \<Rightarrow> string \<Rightarrow> string outcome"
where
  "forEachFragment run [] x obj = Some (Inr obj)"
| "forEachFragment run (fn # fns) x obj =
     (case run fn x of
        None \<Rightarrow> None
      | Some (Inl e) \<Rightarrow> Some (Inl e)
      | Some (Inr s) \<Rightarrow> forEachFragment run fns x (obj @ s))"

text \<open>The loop over the children of an array, with the connector before each child.\<close>

fun forEachChild ::
  "(fragment \<Rightarrow> jv \<Rightarrow> string outcome) \<Rightarrow> fragment list \<Rightarrow> jv list \<Rightarrow> string \<Rightarrow> string \<Rightarrow> string outcome"
where
  "forEachChild run parsed [] connector obj = Some (Inr obj)"
| "forEachChild run parsed (child # children) connector obj =
     (case forEachFragment run parsed child (obj @ connector) of
        None \<Rightarrow> None
      | Some (Inl e) \<Rightarrow> Some (Inl e)
      | Some (Inr obj') \<Rightarrow> forEachChild run parsed children '','' obj')"

text \<open>
  The closure \<open>compile\<close> returns, for the fragments \<open>parsed\<close>. \<open>if (path)\<close> holds for
  a path that is given and is not the empty text; otherwise the fragments run against
  the data.
\<close>

fun given :: "string option \<Rightarrow> bool" where
  "given None = False"
| "given (Some path) = (path \<noteq> [])"

definition compiledTemplate ::
  "(fragment \<Rightarrow> jv \<Rightarrow> string outcome) \<Rightarrow> fragment list \<Rightarrow> jv \<Rightarrow> string option \<Rightarrow> string outcome"
where
  "compiledTemplate run parsed data path =
     (if given path
      then (case getValue data (the path) of
              Inl e \<Rightarrow> Some (Inl e)
            | Inr v \<Rightarrow>
                (case v of
                   JArr children \<Rightarrow>
                     (case forEachChild run parsed children [] ''['' of
                        None \<Rightarrow> None
                      | Some (Inl e) \<Rightarrow> Some (Inl e)
                      | Some (Inr obj) \<Rightarrow> Some (Inr (obj @ '']'')))
                 | _ \<Rightarrow>
                     if typeof v = ''object'' then forEachFragment run parsed v []
                     else Some (Inr [])))
      else forEachFragment run parsed data [])"

text \<open>
  Calling an entry of the table with at most \<open>n\<close> further levels of nesting below it.
\<close>

fun callTemplate :: "nat \<Rightarrow> templates \<Rightarrow> entry \<Rightarrow> jv \<Rightarrow> string option \<Rightarrow> jv outcome" where
  "callTemplate n T (Native f) data path = Some (f data path)"
| "callTemplate 0 T (Compiled parsed) data path = None"
| "callTemplate (Suc n) T (Compiled parsed) data path =
     (case compiledTemplate (runFragment (\<lambda>t d a. callTemplate n T t d a) T) parsed data path of
        None \<Rightarrow> None
      | Some (Inl e) \<Rightarrow> Some (Inl e)
      | Some (Inr obj) \<Rightarrow> Some (Inr (JStr obj)))"

text \<open>The fragments as a compiled template runs them with \<open>n\<close> levels of nesting left.\<close>

definition fragmentRunner :: "nat \<Rightarrow> templates \<Rightarrow> fragment \<Rightarrow> jv \<Rightarrow> string outcome" where
  "fragmentRunner n T = runFragment (\<lambda>t d a. callTemplate n T t d a) T"

text \<open>
  \<open>JsonTemplates.compile\<close>: a template that is not a text is serialised first. There is
  no text for \<open>undefined\<close>, and \<open>parse\<close> then fails reading its length.
\<close>

definition compile :: "jv \<Rightarrow> error + fragment list" where
  "compile json =
     (case json of
        JStr s \<Rightarrow> Inr (parse s)
      | _ \<Rightarrow> (case stringify json of
                None \<Rightarrow> Inl (NullMemberAccess ''length'')
              | Some s \<Rightarrow> Inr (parse s)))"

section \<open>Template store\<close>

text \<open>
  What \<open>render\<close> returns is the result of the call: a value of the model or, from the
  inherited \<open>constructor\<close>, a wrapper object around a primitive value.
\<close>

datatype returned = Plain jv | Wrapper jv

fun truthyReturned :: "returned \<Rightarrow> bool" where
  "truthyReturned (Plain v) = truthy v"
| "truthyReturned (Wrapper v) = True"

text \<open>
  \<open>template(data)\<close> in \<open>render\<close> for a name the lookup finds in \<open>Object.prototype\<close>: the
  built-in member is called as a plain function, without a receiver. \<open>toString\<close>
  returns \<open>[object Undefined]\<close>; \<open>constructor\<close> is \<open>Object\<close>; \<open>isPrototypeOf\<close> returns
  \<open>false\<close> for a primitive value; \<open>__proto__\<close> is no function; every other call raises
  for want of a receiver.
\<close>

definition inheritedFunction :: "string \<Rightarrow> jv \<Rightarrow> error + returned" where
  "inheritedFunction m data =
     (if m = ''toString'' then Inr (Plain (JStr ''[object Undefined]''))
      else if m = ''constructor'' then
        (if isNullish data then Inr (Plain (JObj []))
         else if typeof data = ''object'' then Inr (Plain data)
         else Inr (Wrapper data))
      else if m = ''isPrototypeOf'' then
        (if typeof data = ''object'' \<and> data \<noteq> JNull then Inl (BuiltinTypeError m)
         else Inr (Plain (JBool False)))
      else if m = ''__proto__'' then Inl (NotAFunction m)
      else Inl (BuiltinTypeError m))"

definition render :: "nat \<Rightarrow> templates \<Rightarrow> string \<Rightarrow> jv \<Rightarrow> returned outcome" where
  "render n T name data =
     (case lookup T name of
        None \<Rightarrow> Some (Inr (Plain JUndef))
      | Some (Registered template) \<Rightarrow>
          (case callTemplate n T template data None of
             None \<Rightarrow> None
           | Some (Inl e) \<Rightarrow> Some (Inl e)
           | Some (Inr result) \<Rightarrow> Some (Inr (Plain result)))
      | Some (Inherited m) \<Rightarrow> Some (inheritedFunction m data))"

text \<open>
  \<open>renderAsJSON\<close>. \<open>JSON.parse\<close> belongs to the host; it is a parameter here, a function
  from the rendered value to the parsed value or the exception it raises. It converts
  its argument to a text, the same text for a wrapper object as for the value inside.
  The last argument is the \<open>postProcess\<close> flag, \<open>undefined\<close> when it is left out.
\<close>

fun unwrapped :: "returned \<Rightarrow> jv" where
  "unwrapped (Plain v) = v"
| "unwrapped (Wrapper v) = v"

definition renderAsJSON ::
  "(jv \<Rightarrow> error + jv) \<Rightarrow> nat \<Rightarrow> templates \<Rightarrow> string \<Rightarrow> jv \<Rightarrow> jv \<Rightarrow> jv outcome" where
  "renderAsJSON JSON_parse n T name data postProcessFlag =
     (case render n T name data of
        None \<Rightarrow> None
      | Some (Inl e) \<Rightarrow> Some (Inl e)
      | Some (Inr json) \<Rightarrow>
          if \<not> truthyReturned json then Some (Inr JNull)
          else (case JSON_parse (unwrapped json) of
                  Inl e \<Rightarrow> Some (Inl e)
                | Inr obj \<Rightarrow>
                    if truthy postProcessFlag \<or> postProcessFlag = JUndef
                    then (case postProcess obj of
                            Inl e \<Rightarrow> Some (Inl e)
                          | Inr obj' \<Rightarrow> Some (Inr obj'))
                    else Some (Inr obj)))"

section \<open>Properties of value addressing and of the parser\<close>

text \<open>
  C6. \<open>getValue\<close> takes \<open>null\<close> for a value it can read a member of, since the type of
  \<open>null\<close> is \<open>object\<close>: a path that goes on after a \<open>null\<close> raises a TypeError instead of
  resolving to \<open>undefined\<close>.
\<close>

theorem getValue_through_null:
  "getValue (JObj [(''a'', JNull)]) ''a.b'' = Inl (NullMemberAccess ''b'')
   \<and> getValue JNull ''a'' = Inl (NullMemberAccess ''a'')"
  by code_simp

text \<open>
  C1. The text \<open>abc)\<close> of a path expression ends in \<open>)\<close> and has no \<open>(\<close>: \<open>indexOf\<close>
  returns \<open>-1\<close>, which the test \<open>open && close\<close> takes for true, and \<open>parse\<close> emits a
  function fragment with the empty name and the arguments \<open>abc\<close>. The text \<open>(x)\<close> has
  its \<open>(\<close> at index 0, which the test takes for false, and \<open>parse\<close> emits a property
  fragment. The name of a function fragment is cut from the text as it stands, not
  from the trimmed text.
\<close>

theorem parse_call_without_open:
  "parse ([CHR 0x22] @ ''${abc)}'' @ [CHR 0x22])
     = [appendText [CHR 0x22], appendFunction [] ''abc'', appendText [CHR 0x22]]
   \<and> parse ([CHR 0x22] @ ''${(x)}'' @ [CHR 0x22])
     = [appendText [CHR 0x22], appendProperty ''(x)'', appendText [CHR 0x22]]
   \<and> parse ([CHR 0x22] @ ''${ f(x) }'' @ [CHR 0x22])
     = [appendText [CHR 0x22], appendFunction '' f'' ''x'', appendText [CHR 0x22]]"
  by code_simp

section \<open>Properties of the post-processor\<close>

subsection \<open>Idempotence\<close>

text \<open>Whatever \<open>processNode\<close> leaves behind has no directive key any more.\<close>

lemma processed_directiveFree:
  "(\<forall>ok v'. processNode v p = Inr (ok, v') \<longrightarrow> directiveFree v')"
  "(\<forall>ys. processElements xs p = Inr ys \<longrightarrow> directiveFreeElements ys)"
  "(\<forall>kept conds. processMembers ms p = Inr (kept, conds) \<longrightarrow> directiveFreeMembers kept)"
proof (induction v p and xs p and ms p rule: processNode_processElements_processMembers.induct)
  case (1 xs p)
  then show ?case by (auto split: sum.splits if_splits)
next
  case (2 ms p)
  then show ?case by (auto split: sum.splits if_splits prod.splits)
next
  case (9 x xs p)
  then show ?case by (auto split: sum.splits if_splits prod.splits)
next
  case (11 key v ms p)
  then show ?case by (auto split: sum.splits if_splits prod.splits)
qed simp_all

lemma noPrune_simps [simp]:
  "\<not> truthy (nullMembers noPrune)"
  "\<not> truthy (emptyStrings noPrune)"
  "\<not> truthy (emptyArrays noPrune)"
  by (simp_all add: noPrune_def)

text \<open>Under the empty options a tree without directive keys is left as it is.\<close>

lemma directiveFree_fixed:
  "p = noPrune \<Longrightarrow> directiveFree v \<Longrightarrow> processNode v p = Inr (True, v)"
  "p = noPrune \<Longrightarrow> directiveFreeElements xs \<Longrightarrow> processElements xs p = Inr xs"
  "p = noPrune \<Longrightarrow> directiveFreeMembers ms \<Longrightarrow> processMembers ms p = Inr (ms, [])"
proof (induction v p and xs p and ms p rule: processNode_processElements_processMembers.induct)
  case (11 key v ms p)
  then show ?case by simp
qed simp_all

text \<open>
  C9. \<open>postProcess\<close> is idempotent: post-processing the result of \<open>postProcess v\<close> gives
  the result of \<open>postProcess v\<close> again, for every value \<open>v\<close>. Where the first call raises
  an exception there is no result to process, and the two calls in a row raise it too.
\<close>

theorem postProcess_idempotent:
  "(case postProcess v of Inl e \<Rightarrow> Inl e | Inr w \<Rightarrow> postProcess w) = postProcess v"
proof (cases "processNode v noPrune")
  case (Inl e)
  then show ?thesis by (simp add: postProcess_def)
next
  case (Inr r)
  obtain ok v' where r: "r = (ok, v')" by (cases r)
  have "directiveFree v'" using processed_directiveFree(1) Inr r by blast
  then have "processNode v' noPrune = Inr (True, v')" by (simp add: directiveFree_fixed(1))
  then show ?thesis using Inr r by (simp add: postProcess_def)
qed

theorem postProcess_idempotent_witness:
  "postProcess (JObj [(''@prune'', JObj [(''nullMembers'', JBool True)]), (''a'', JNull), (''b'', JNum 1)])
     = Inr (JObj [(''b'', JNum 1)])
   \<and> postProcess (JObj [(''b'', JNum 1)]) = Inr (JObj [(''b'', JNum 1)])"
proof -
  have h: "postProcess (JObj [(''@prune'', JObj [(''nullMembers'', JBool True)]), (''a'', JNull), (''b'', JNum 1)])
     = Inr (JObj [(''b'', JNum 1)])"
    by code_simp
  from postProcess_idempotent [of "JObj [(''@prune'', JObj [(''nullMembers'', JBool True)]), (''a'', JNull), (''b'', JNum 1)]"]
  show ?thesis unfolding h by simp
qed

subsection \<open>The loops, piece by piece\<close>

lemma effectivePrune_simps [simp]:
  "effectivePrune p [] = p"
  "effectivePrune p ((key, v) # ms) = effectivePrune (if key = ''@prune'' then assign p v else p) ms"
  by (simp_all add: effectivePrune_def)


lemma processElements_append:
  "processElements (pre @ rest) p =
     (case processElements rest p of
        Inl e \<Rightarrow> Inl e
      | Inr y2 \<Rightarrow>
          (case processElements pre p of
             Inl e \<Rightarrow> Inl e
           | Inr y1 \<Rightarrow> Inr (y1 @ y2)))"
proof (induction pre)
  case Nil
  show ?case by (simp split: sum.splits)
next
  case (Cons x pre)
  show ?case
    by (auto simp add: Cons.IH split: sum.splits prod.splits)
qed

lemma processElements_map_filter:
  "processElements xs p = Inr ys \<Longrightarrow> ys = List.map_filter (keptElement p) xs"
proof (induction xs arbitrary: ys)
  case Nil
  then show ?case by (simp add: List.map_filter_simps)
next
  case (Cons x xs)
  then show ?case
    by (auto simp add: List.map_filter_simps keptElement_def split: sum.splits prod.splits if_splits)
qed

lemma processElements_snoc:
  "processElements (xs @ [x]) p =
     (if truthy (nullMembers p) \<and> isNullish x then processElements xs p
      else (case processNode x p of
              Inl e \<Rightarrow> Inl e
            | Inr (ok, x') \<Rightarrow>
                (case processElements xs p of
                   Inl e \<Rightarrow> Inl e
                 | Inr ys \<Rightarrow> if \<not> ok then Inr ys else Inr (ys @ [x']))))"
  by (auto simp add: processElements_append split: sum.splits prod.splits)



lemma checkConditions_iff:
  "checkConditions node cs = Inr ok \<Longrightarrow>
     (\<not> ok) = (\<exists>c \<in> set cs. \<exists>v. conditionValue node c = Inr v \<and> \<not> truthy v)"
proof (induction cs)
  case Nil
  then show ?case by simp
next
  case (Cons c cs)
  then show ?case by (auto split: sum.splits if_splits)
qed









subsection \<open>Deferred conditions\<close>



subsection \<open>Scope of the pruning options\<close>



subsection \<open>Arrays\<close>

text \<open>
  C5. The array loop deals with the last element first and with the elements before it
  afterwards. An element is removed when it is \<open>null\<close> or \<open>undefined\<close> while
  \<open>nullMembers\<close> is on, or when post-processing it fails; every other element stays,
  post-processed. When the loop is over and \<open>emptyArrays\<close> is on, an array without
  elements fails, and the member of the parent object that holds it is deleted.
\<close>

theorem array_pruning:
  "processElements (xs @ [x]) p =
     (if truthy (nullMembers p) \<and> isNullish x then processElements xs p
      else (case processNode x p of
              Inl e \<Rightarrow> Inl e
            | Inr (ok, x') \<Rightarrow>
                (case processElements xs p of
                   Inl e \<Rightarrow> Inl e
                 | Inr ys \<Rightarrow> if \<not> ok then Inr ys else Inr (ys @ [x']))))
   \<and> (processElements xs p = Inr ys \<longrightarrow> ys = List.map_filter (keptElement p) xs)
   \<and> (processNode (JArr xs) p = Inr (ok, node) \<longrightarrow>
        node = JArr (List.map_filter (keptElement p) xs)
        \<and> (ok \<longleftrightarrow> \<not> (truthy (emptyArrays p) \<and> List.map_filter (keptElement p) xs = [])))
   \<and> (truthy (emptyArrays p) \<and> List.map_filter (keptElement p) xs = []
        \<and> processNode (JArr xs) p = Inr (ok, node)
        \<and> key \<noteq> ''@prune'' \<and> key \<noteq> ''@if'' \<longrightarrow>
        processMembers ((key, JArr xs) # ms) p = processMembers ms p)"
proof (intro conjI impI)
  show "processElements (xs @ [x]) p =
     (if truthy (nullMembers p) \<and> isNullish x then processElements xs p
      else (case processNode x p of
              Inl e \<Rightarrow> Inl e
            | Inr (ok, x') \<Rightarrow>
                (case processElements xs p of
                   Inl e \<Rightarrow> Inl e
                 | Inr ys \<Rightarrow> if \<not> ok then Inr ys else Inr (ys @ [x']))))"
    by (rule processElements_snoc)
next
  assume "processElements xs p = Inr ys"
  then show "ys = List.map_filter (keptElement p) xs" by (rule processElements_map_filter)
next
  assume a: "processNode (JArr xs) p = Inr (ok, node)"
  then obtain zs where zs: "processElements xs p = Inr zs"
    by (auto split: sum.splits)
  have eq: "zs = List.map_filter (keptElement p) xs" using zs by (rule processElements_map_filter)
  show "node = JArr (List.map_filter (keptElement p) xs)"
    using a zs eq by (auto split: if_splits)
  show "ok \<longleftrightarrow> \<not> (truthy (emptyArrays p) \<and> List.map_filter (keptElement p) xs = [])"
    using a zs eq by (auto split: if_splits)
next
  assume a: "truthy (emptyArrays p) \<and> List.map_filter (keptElement p) xs = []
        \<and> processNode (JArr xs) p = Inr (ok, node)
        \<and> key \<noteq> ''@prune'' \<and> key \<noteq> ''@if''"
  then obtain zs where zs: "processElements xs p = Inr zs"
    by (auto split: sum.splits)
  have eq: "zs = []" using zs processElements_map_filter a by fastforce
  show "processMembers ((key, JArr xs) # ms) p = processMembers ms p"
    using a zs eq by (auto split: sum.splits prod.splits)
qed

theorem array_pruning_witness:
  "processNode (JArr [JNull, JObj [(''@if'', JStr ''x'')]])
      \<lparr>nullMembers = JBool True, emptyStrings = JUndef, emptyArrays = JBool True\<rparr>
     = Inr (False, JArr [])
   \<and> processMembers [(''items'', JArr [JNull, JObj [(''@if'', JStr ''x'')]]), (''n'', JNum 1)]
      \<lparr>nullMembers = JBool True, emptyStrings = JUndef, emptyArrays = JBool True\<rparr>
     = Inr ([(''n'', JNum 1)], [])
   \<and> processElements [JNull, JObj [(''@if'', JStr ''x'')]]
      \<lparr>nullMembers = JBool True, emptyStrings = JUndef, emptyArrays = JBool True\<rparr>
     = Inr []"
proof -
  let ?p = "\<lparr>nullMembers = JBool True, emptyStrings = JUndef, emptyArrays = JBool True\<rparr>"
  let ?xs = "[JNull, JObj [(''@if'', JStr ''x'')]]"
  have h1: "processNode (JArr ?xs) ?p = Inr (False, JArr [])" by code_simp
  have h2: "processElements ?xs ?p = Inr []" by code_simp
  have h3: "truthy (emptyArrays ?p)" by simp
  have h4: "''items'' \<noteq> ''@prune'' \<and> ''items'' \<noteq> ''@if''" by simp
  have r: "processMembers [(''n'', JNum 1)] ?p = Inr ([(''n'', JNum 1)], [])" by code_simp
  note t = array_pruning [where xs = ?xs and x = JNull and p = ?p and ys = "[]" and ok = False
      and node = "JArr []" and key = "''items''" and ms = "[(''n'', JNum 1)]"]
  from t h1 h2 have m: "List.map_filter (keptElement ?p) ?xs = []" by blast
  from t m h1 h3 h4 have "processMembers ((''items'', JArr ?xs) # [(''n'', JNum 1)]) ?p
      = processMembers [(''n'', JNum 1)] ?p" by blast
  then show ?thesis using h1 h2 r by simp
qed

section \<open>Properties of the renderer\<close>

subsection \<open>The loops of a compiled template\<close>

lemma forEachFragment_from:
  "forEachFragment run parsed x obj =
     (case forEachFragment run parsed x [] of
        None \<Rightarrow> None
      | Some (Inl e) \<Rightarrow> Some (Inl e)
      | Some (Inr s) \<Rightarrow> Some (Inr (obj @ s)))"
proof (induction parsed arbitrary: obj)
  case Nil
  show ?case by simp
next
  case (Cons fn fns)
  show ?case
  proof (cases "run fn x")
    case None
    then show ?thesis by simp
  next
    case (Some r)
    show ?thesis
    proof (cases r)
      case (Inl e)
      with Some show ?thesis by simp
    next
      case (Inr s)
      have 1: "forEachFragment run (fn # fns) x obj = forEachFragment run fns x (obj @ s)"
        using Some Inr by simp
      have 2: "forEachFragment run (fn # fns) x [] = forEachFragment run fns x s"
        using Some Inr by simp
      have 3: "forEachFragment run fns x (obj @ s) =
          (case forEachFragment run fns x [] of
             None \<Rightarrow> None
           | Some (Inl e) \<Rightarrow> Some (Inl e)
           | Some (Inr t) \<Rightarrow> Some (Inr ((obj @ s) @ t)))"
        by (rule Cons.IH)
      have 4: "forEachFragment run fns x s =
          (case forEachFragment run fns x [] of
             None \<Rightarrow> None
           | Some (Inl e) \<Rightarrow> Some (Inl e)
           | Some (Inr t) \<Rightarrow> Some (Inr (s @ t)))"
        by (rule Cons.IH)
      show ?thesis
        unfolding 1 2 3 4
        by (simp split: option.splits sum.splits)
    qed
  qed
qed

lemma forEachFragment_append:
  "forEachFragment run (pre @ rest) x obj =
     (case forEachFragment run pre x obj of
        None \<Rightarrow> None
      | Some (Inl e) \<Rightarrow> Some (Inl e)
      | Some (Inr t) \<Rightarrow> forEachFragment run rest x t)"
  by (induction pre arbitrary: obj) (simp_all split: option.splits sum.splits)

lemma join_Cons: "join sep (s # ss) = s @ (if ss = [] then [] else sep @ join sep ss)"
  by (cases ss) simp_all

lemma forEachChild_segments:
  "map (\<lambda>child. forEachFragment run parsed child []) children = map (\<lambda>s. Some (Inr s)) segs \<Longrightarrow>
   forEachChild run parsed children connector obj =
     Some (Inr (obj @ (if children = [] then [] else connector @ join '','' segs)))"
proof (induction children arbitrary: segs connector obj)
  case Nil
  then show ?case by simp
next
  case (Cons child children)
  from Cons.prems obtain s segs' where segs: "segs = s # segs'"
    and s: "forEachFragment run parsed child [] = Some (Inr s)"
    and rest: "map (\<lambda>child. forEachFragment run parsed child []) children = map (\<lambda>s. Some (Inr s)) segs'"
    by (cases segs) auto
  have len: "(children = []) = (segs' = [])"
    using rest by (metis map_is_Nil_conv)
  have 1: "forEachFragment run parsed child (obj @ connector) = Some (Inr ((obj @ connector) @ s))"
    by (subst forEachFragment_from) (simp add: s)
  show ?case
    unfolding segs join_Cons
    using 1 Cons.IH [OF rest, of "'',''" "(obj @ connector) @ s"] len
    by simp
qed

lemma split_not_Nil: "split sep s \<noteq> []"
  by (induction s) (simp_all split: list.splits)

lemma getValue_null: "getValue JNull path = Inl (NullMemberAccess (trim (hd (split CHR ''.'' path))))"
proof -
  obtain part parts where "split CHR ''.'' path = part # parts"
    using split_not_Nil [of "CHR ''.''" path] by (cases "split CHR ''.'' path") auto
  then show ?thesis by (simp add: getValue_def)
qed

subsection \<open>A template bound to a path\<close>

text \<open>
  C2, for a path that is not the empty text. When the path resolves to an array and
  the fragments run to the end for every element, the result is \<open>[\<close>, the results for
  the elements joined by commas, \<open>]\<close>, with one segment for each element. When it
  resolves to an object, the result is that of the fragments run against the object.
  When it resolves to \<open>undefined\<close>, a boolean, a number or a text, the result is the
  empty text. The empty text for a path counts as no path: the fragments run against
  the data.
\<close>

theorem compiledTemplate_path:
  assumes "path \<noteq> []"
  shows "(getValue data path = Inr (JArr children)
          \<and> map (\<lambda>child. forEachFragment (fragmentRunner n T) parsed child []) children
               = map (\<lambda>s. Some (Inr s)) segs \<longrightarrow>
          compiledTemplate (fragmentRunner n T) parsed data (Some path)
            = Some (Inr (''['' @ join '','' segs @ '']''))
          \<and> length segs = length children)
       \<and> (getValue data path = Inr (JObj ms) \<longrightarrow>
          compiledTemplate (fragmentRunner n T) parsed data (Some path)
            = forEachFragment (fragmentRunner n T) parsed (JObj ms) [])
       \<and> (getValue data path = Inr v \<and> (v = JUndef \<or> v = JBool b \<or> v = JNum i \<or> v = JStr s) \<longrightarrow>
          compiledTemplate (fragmentRunner n T) parsed data (Some path) = Some (Inr []))
       \<and> compiledTemplate (fragmentRunner n T) parsed data (Some [])
            = forEachFragment (fragmentRunner n T) parsed data []
       \<and> compiledTemplate (fragmentRunner n T) parsed data None
            = forEachFragment (fragmentRunner n T) parsed data []"
proof (intro conjI impI)
  assume a: "getValue data path = Inr (JArr children)
          \<and> map (\<lambda>child. forEachFragment (fragmentRunner n T) parsed child []) children
               = map (\<lambda>s. Some (Inr s)) segs"
  then have m: "map (\<lambda>child. forEachFragment (fragmentRunner n T) parsed child []) children
               = map (\<lambda>s. Some (Inr s)) segs" by simp
  have loop: "forEachChild (fragmentRunner n T) parsed children [] ''[''
      = Some (Inr (''['' @ (if children = [] then [] else [] @ join '','' segs)))"
    using m by (rule forEachChild_segments)
  have len: "length segs = length children"
    using m by (metis length_map)
  then have e: "children = [] \<Longrightarrow> segs = []" by simp
  show "compiledTemplate (fragmentRunner n T) parsed data (Some path)
            = Some (Inr (''['' @ join '','' segs @ '']''))"
    using assms a loop e by (simp add: compiledTemplate_def)
  show "length segs = length children" by (rule len)
next
  assume "getValue data path = Inr (JObj ms)"
  then show "compiledTemplate (fragmentRunner n T) parsed data (Some path)
            = forEachFragment (fragmentRunner n T) parsed (JObj ms) []"
    using assms by (simp add: compiledTemplate_def)
next
  assume "getValue data path = Inr v \<and> (v = JUndef \<or> v = JBool b \<or> v = JNum i \<or> v = JStr s)"
  then show "compiledTemplate (fragmentRunner n T) parsed data (Some path) = Some (Inr [])"
    using assms by (auto simp add: compiledTemplate_def)
next
  show "compiledTemplate (fragmentRunner n T) parsed data (Some [])
            = forEachFragment (fragmentRunner n T) parsed data []"
    by (simp add: compiledTemplate_def)
next
  show "compiledTemplate (fragmentRunner n T) parsed data None
            = forEachFragment (fragmentRunner n T) parsed data []"
    by (simp add: compiledTemplate_def)
qed

theorem compiledTemplate_path_witness:
  "compiledTemplate (fragmentRunner 0 Map.empty)
      [appendText ''<'', appendProperty ''x'', appendText ''>'']
      (JObj [(''items'', JArr [JObj [(''x'', JNum 1)], JObj [(''x'', JNum 2)], JObj [(''x'', JNum 3)]]),
             (''one'', JObj [(''x'', JStr ''q'')]), (''n'', JNum 7)])
      (Some ''items'') = Some (Inr ''[<1>,<2>,<3>]'')
   \<and> length [''<1>'', ''<2>'', ''<3>'']
       = length [JObj [(''x'', JNum 1)], JObj [(''x'', JNum 2)], JObj [(''x'', JNum 3)]]
   \<and> compiledTemplate (fragmentRunner 0 Map.empty)
      [appendText ''<'', appendProperty ''x'', appendText ''>'']
      (JObj [(''items'', JArr [JObj [(''x'', JNum 1)], JObj [(''x'', JNum 2)], JObj [(''x'', JNum 3)]]),
             (''one'', JObj [(''x'', JStr ''q'')]), (''n'', JNum 7)])
      (Some ''one'') = Some (Inr ''<q>'')
   \<and> compiledTemplate (fragmentRunner 0 Map.empty)
      [appendText ''<'', appendProperty ''x'', appendText ''>'']
      (JObj [(''items'', JArr [JObj [(''x'', JNum 1)], JObj [(''x'', JNum 2)], JObj [(''x'', JNum 3)]]),
             (''one'', JObj [(''x'', JStr ''q'')]), (''n'', JNum 7)])
      (Some ''n'') = Some (Inr [])"
proof -
  let ?parsed = "[appendText ''<'', appendProperty ''x'', appendText ''>'']"
  let ?children = "[JObj [(''x'', JNum 1)], JObj [(''x'', JNum 2)], JObj [(''x'', JNum 3)]]"
  let ?data = "JObj [(''items'', JArr ?children), (''one'', JObj [(''x'', JStr ''q'')]), (''n'', JNum 7)]"
  let ?run = "fragmentRunner 0 Map.empty"
  have p1: "''items'' \<noteq> []" and p2: "''one'' \<noteq> []" and p3: "''n'' \<noteq> []" by simp_all
  have g1: "getValue ?data ''items'' = Inr (JArr ?children)" by code_simp
  have g2: "getValue ?data ''one'' = Inr (JObj [(''x'', JStr ''q'')])" by code_simp
  have g3: "getValue ?data ''n'' = Inr (JNum 7)" by code_simp
  have m: "map (\<lambda>child. forEachFragment ?run ?parsed child []) ?children
      = map (\<lambda>s. Some (Inr s)) [''<1>'', ''<2>'', ''<3>'']"
    by code_simp
  have j: "''['' @ join '','' [''<1>'', ''<2>'', ''<3>''] @ '']'' = ''[<1>,<2>,<3>]''"
    by code_simp
  have o: "forEachFragment ?run ?parsed (JObj [(''x'', JStr ''q'')]) [] = Some (Inr ''<q>'')"
    by code_simp
  note t1 = compiledTemplate_path [OF p1, where data = ?data and children = ?children
      and n = 0 and T = Map.empty and parsed = ?parsed and segs = "[''<1>'', ''<2>'', ''<3>'']"]
  note t2 = compiledTemplate_path [OF p2, where data = ?data and ms = "[(''x'', JStr ''q'')]"
      and n = 0 and T = Map.empty and parsed = ?parsed]
  note t3 = compiledTemplate_path [OF p3, where data = ?data and v = "JNum 7" and i = 7
      and n = 0 and T = Map.empty and parsed = ?parsed]
  from t1 g1 m have r1: "compiledTemplate ?run ?parsed ?data (Some ''items'')
      = Some (Inr (''['' @ join '','' [''<1>'', ''<2>'', ''<3>''] @ '']''))"
    by blast
  from t2 g2 have r2: "compiledTemplate ?run ?parsed ?data (Some ''one'')
      = forEachFragment ?run ?parsed (JObj [(''x'', JStr ''q'')]) []"
    by blast
  from t3 g3 have r3: "compiledTemplate ?run ?parsed ?data (Some ''n'') = Some (Inr [])"
    by blast
  show ?thesis
    using r1 r2 r3 unfolding j o by simp
qed

text \<open>
  Two inputs outside these cases. A path that resolves to \<open>null\<close> does not give the
  empty text: the fragments run against \<open>null\<close>. The empty text is a path that
  \<open>if (path)\<close> does not take: it resolves to \<open>undefined\<close> here, and the fragments run
  against the data all the same; a function fragment without arguments, as in
  \<open>${child()}\<close>, calls its template with this path.
\<close>

theorem path_cases_counterexample:
  "getValue (JObj [(''a'', JNull)]) ''a'' = Inr JNull
   \<and> compiledTemplate (fragmentRunner 0 Map.empty) [appendText ''x'']
        (JObj [(''a'', JNull)]) (Some ''a'') = Some (Inr ''x'')
   \<and> getValue (JObj []) [] = Inr JUndef
   \<and> compiledTemplate (fragmentRunner 0 Map.empty) [appendText ''x''] (JObj []) (Some [])
       = Some (Inr ''x'')
   \<and> closePath ''child()'' = appendFunction ''child'' []
   \<and> fragmentRunner (Suc 0) (Map.empty(''child'' \<mapsto> Compiled [appendText ''x'']))
        (appendFunction ''child'' []) (JObj []) = Some (Inr ''x'')"
  by code_simp

subsection \<open>Names without an entry\<close>

text \<open>
  C7, as the code has it. For a name the lookup in the table does not find, one that
  is neither registered nor the name of a member of \<open>Object.prototype\<close>, \<open>render\<close>
  returns \<open>undefined\<close> and \<open>renderAsJSON\<close> returns \<open>null\<close>; neither raises, and neither
  needs any depth of nesting.
\<close>

theorem lookup_miss:
  assumes "T name = None" and "name \<notin> set objectPrototypeNames"
  shows "render n T name data = Some (Inr (Plain JUndef))
       \<and> renderAsJSON JSON_parse n T name data postProcessFlag = Some (Inr JNull)"
  using assms by (simp add: render_def renderAsJSON_def lookup_def)

theorem lookup_miss_witness:
  "(Map.empty :: templates) ''missing-name'' = None
   \<and> ''missing-name'' \<notin> set objectPrototypeNames
   \<and> render 0 Map.empty ''missing-name'' (JObj []) = Some (Inr (Plain JUndef))
   \<and> renderAsJSON (\<lambda>json. Inr json) 0 Map.empty ''missing-name'' (JObj []) JUndef
       = Some (Inr JNull)"
proof -
  have h1: "(Map.empty :: templates) ''missing-name'' = None" by simp
  have h2: "''missing-name'' \<notin> set objectPrototypeNames"
    by (simp add: objectPrototypeNames_def)
  from lookup_miss [OF h1 h2] h1 h2 show ?thesis by simp
qed

text \<open>What \<open>renderAsJSON\<close> returns for a name without an entry is \<open>null\<close>, not \<open>undefined\<close>.\<close>

theorem renderAsJSON_missing_counterexample:
  "renderAsJSON (\<lambda>json. Inr json) 0 Map.empty ''missing-name'' (JObj []) JUndef
     = Some (Inr JNull)
   \<and> Some (Inr JNull) \<noteq> (Some (Inr JUndef) :: jv outcome)"
  by (simp add: renderAsJSON_def render_def lookup_def objectPrototypeNames_def)

subsection \<open>A function fragment whose name is not registered\<close>

text \<open>
  Where the lookup of the name of a function fragment finds nothing, rendering the
  template never returns a text: the call raises, or does not return. When the
  fragments before the function fragment run to the end, the exception is the
  TypeError of calling what the lookup returned.
\<close>

lemma unfound_function_fails:
  assumes "T name = Some (Compiled (pre @ appendFunction f args # post))"
    and "lookup T f = None"
  shows "(\<forall>s. render n T name data \<noteq> Some (Inr s))
       \<and> (forEachFragment (fragmentRunner n T) pre data [] = Some (Inr out) \<longrightarrow>
            render (Suc n) T name data = Some (Inl (NotAFunction f)))"
proof (intro conjI allI impI)
  have l: "lookup T name = Some (Registered (Compiled (pre @ appendFunction f args # post)))"
    using assms(1) by (simp add: lookup_def)
  fix s
  show "render n T name data \<noteq> Some (Inr s)"
  proof (cases n)
    case 0
    then show ?thesis using l by (simp add: render_def)
  next
    case (Suc m)
    have f: "fragmentRunner m T (appendFunction f args) data = Some (Inl (NotAFunction f))"
      using assms(2) by (simp add: fragmentRunner_def)
    have "forEachFragment (fragmentRunner m T) (pre @ appendFunction f args # post) data []
        \<noteq> Some (Inr t)" for t
      unfolding forEachFragment_append
      using f by (simp split: option.splits sum.splits)
    then show ?thesis
      using l Suc
      by (auto simp add: render_def compiledTemplate_def fragmentRunner_def
          split: option.splits sum.splits)
  qed
next
  have l: "lookup T name = Some (Registered (Compiled (pre @ appendFunction f args # post)))"
    using assms(1) by (simp add: lookup_def)
  assume p: "forEachFragment (fragmentRunner n T) pre data [] = Some (Inr out)"
  have f: "fragmentRunner n T (appendFunction f args) data = Some (Inl (NotAFunction f))"
    using assms(2) by (simp add: fragmentRunner_def)
  have "forEachFragment (fragmentRunner n T) (pre @ appendFunction f args # post) data []
      = Some (Inl (NotAFunction f))"
    unfolding forEachFragment_append using p f by simp
  then show "render (Suc n) T name data = Some (Inl (NotAFunction f))"
    using l
    by (simp add: render_def compiledTemplate_def fragmentRunner_def)
qed

text \<open>
  C8. The name \<open>toString\<close> is not registered in the table that holds only the template
  \<open>t\<close>, compiled from the text \<open>"${toString()}"\<close>. The lookup of the name finds the member
  the table inherits from \<open>Object.prototype\<close>, the function fragment calls it, and
  rendering \<open>t\<close> returns the text \<open>"[object Object]"\<close>: the call does not fail. The
  same holds for \<open>valueOf\<close> and \<open>constructor\<close>.
\<close>

theorem inherited_function_renders:
  "compile (JStr ([CHR 0x22] @ ''${toString()}'' @ [CHR 0x22]))
     = Inr [appendText [CHR 0x22], appendFunction ''toString'' [], appendText [CHR 0x22]]
   \<and> (Map.empty(''t'' \<mapsto>
         Compiled [appendText [CHR 0x22], appendFunction ''toString'' [], appendText [CHR 0x22]]))
        ''toString'' = None
   \<and> render (Suc 0)
        (Map.empty(''t'' \<mapsto>
           Compiled [appendText [CHR 0x22], appendFunction ''toString'' [], appendText [CHR 0x22]]))
        ''t'' (JObj [])
     = Some (Inr (Plain (JStr ([CHR 0x22] @ ''[object Object]'' @ [CHR 0x22]))))
   \<and> render (Suc 0) (Map.empty(''t'' \<mapsto> Compiled [appendFunction ''valueOf'' []])) ''t''
        (JObj [(''a'', JNum 1)])
     = Some (Inr (Plain (JStr ''{}'')))
   \<and> render (Suc 0) (Map.empty(''t'' \<mapsto> Compiled [appendFunction ''constructor'' []])) ''t''
        (JObj [(''a'', JNum 1)])
     = Some (Inr (Plain (JStr ([CHR ''{'', CHR 0x22] @ ''a'' @ [CHR 0x22] @ '':1}''))))"
  by code_simp

subsection \<open>A path that resolves to null\<close>

text \<open>
  C10, for a path that is not the empty text. When the path resolves to \<open>null\<close>, the
  result is that of running every fragment against \<open>null\<close>, as for an object. A
  property fragment run against \<open>null\<close> raises the TypeError of reading a member of
  \<open>null\<close>, so a template that has one returns no text.
\<close>

theorem null_is_structured:
  assumes "path \<noteq> []" and "getValue data path = Inr JNull"
  shows "compiledTemplate (fragmentRunner n T) parsed data (Some path)
           = forEachFragment (fragmentRunner n T) parsed JNull []
       \<and> fragmentRunner n T (appendProperty p) JNull
           = Some (Inl (NullMemberAccess (trim (hd (split CHR ''.'' p)))))
       \<and> (appendProperty p \<in> set parsed \<longrightarrow>
            (\<forall>s. compiledTemplate (fragmentRunner n T) parsed data (Some path) \<noteq> Some (Inr s)))"
proof (intro conjI impI allI)
  show 1: "compiledTemplate (fragmentRunner n T) parsed data (Some path)
           = forEachFragment (fragmentRunner n T) parsed JNull []"
    using assms by (simp add: compiledTemplate_def)
  show 2: "fragmentRunner n T (appendProperty p) JNull
           = Some (Inl (NullMemberAccess (trim (hd (split CHR ''.'' p)))))"
    by (simp add: fragmentRunner_def getValue_null)
  fix s
  assume "appendProperty p \<in> set parsed"
  then obtain pre post where parsed: "parsed = pre @ appendProperty p # post"
    by (meson split_list)
  have "forEachFragment (fragmentRunner n T) (pre @ appendProperty p # post) JNull []
      \<noteq> Some (Inr s)"
    unfolding forEachFragment_append
    using 2 by (simp split: option.splits sum.splits)
  then have "forEachFragment (fragmentRunner n T) parsed JNull [] \<noteq> Some (Inr s)"
    using parsed by simp
  then show "compiledTemplate (fragmentRunner n T) parsed data (Some path) \<noteq> Some (Inr s)"
    using 1 by simp
qed

theorem null_is_structured_witness:
  "getValue (JObj [(''a'', JNull)]) ''a'' = Inr JNull
   \<and> compiledTemplate (fragmentRunner 0 Map.empty)
        [appendText ''<'', appendProperty ''x'', appendText ''>'']
        (JObj [(''a'', JNull)]) (Some ''a'') = Some (Inl (NullMemberAccess ''x''))
   \<and> (\<forall>s. compiledTemplate (fragmentRunner 0 Map.empty)
        [appendText ''<'', appendProperty ''x'', appendText ''>'']
        (JObj [(''a'', JNull)]) (Some ''a'') \<noteq> Some (Inr s))"
proof -
  let ?parsed = "[appendText ''<'', appendProperty ''x'', appendText ''>'']"
  have p: "''a'' \<noteq> []" by simp
  have g: "getValue (JObj [(''a'', JNull)]) ''a'' = Inr JNull" by code_simp
  have r: "forEachFragment (fragmentRunner 0 Map.empty) ?parsed JNull []
      = Some (Inl (NullMemberAccess ''x''))"
    by code_simp
  have i: "appendProperty ''x'' \<in> set ?parsed" by simp
  note t = null_is_structured [OF p g, where n = 0 and T = Map.empty and parsed = ?parsed
      and p = "''x''"]
  from t g r i show ?thesis by simp
qed

text \<open>
  The template compiled from the empty text has no fragments: bound to a path that
  resolves to \<open>null\<close> it returns the empty text.
\<close>

theorem empty_template_counterexample:
  "compile (JStr []) = Inr []
   \<and> getValue (JObj [(''a'', JNull)]) ''a'' = Inr JNull
   \<and> compiledTemplate (fragmentRunner 0 Map.empty) [] (JObj [(''a'', JNull)]) (Some ''a'')
       = Some (Inr [])"
  by code_simp

end
